theory Spec2Isabelle
  imports Main "HOL-Library.Char_ord" "HOL-Library.List_Lexorder"
begin

section \<open>Bulk indexation helpers of trackdechet-sirene-search\<close>

text \<open>
  A shallow embedding of \<^verbatim>\<open>src/indexation/elasticSearch.helpers.ts\<close>. Strings are
  \<open>string\<close>, the arrays of the source are lists, an optional field or an
  \<^verbatim>\<open>undefined\<close> value is \<open>None\<close>. What the Elasticsearch client, the logger and the
  CSV parser do is outside the file: their calls are recorded as effects, and their
  answers are parameters of the functions.
\<close>

subsection \<open>JavaScript primitives used by the file\<close>

text \<open>
  \<^verbatim>\<open>parseInt(s, 10)\<close>: leading white space is skipped, one sign is read, then the
  longest run of decimal digits; no digit gives \<^verbatim>\<open>NaN\<close>, which is \<open>None\<close>. Only
  ASCII white space is recognised here, and the result is an unbounded integer (the
  source's is a double).
\<close>

definition isStrWhiteSpace :: "char \<Rightarrow> bool" where
  "isStrWhiteSpace c = (of_char c \<in> {9, 10, 11, 12, 13, 32 :: nat})"

definition isDecimalDigit :: "char \<Rightarrow> bool" where
  "isDecimalDigit c = (48 \<le> (of_char c :: nat) \<and> (of_char c :: nat) \<le> 57)"

definition digitsValue :: "string \<Rightarrow> int" where
  "digitsValue ds = foldl (\<lambda>acc c. 10 * acc + (int (of_char c) - 48)) 0 ds"

definition parseInt :: "string \<Rightarrow> int option" where
  "parseInt s =
     (let t = dropWhile isStrWhiteSpace s;
          sgn = (case t of c # _ \<Rightarrow> (if c = CHR ''-'' then - 1 else 1) | [] \<Rightarrow> 1);
          r = (case t of c # cs \<Rightarrow> (if c = CHR ''-'' \<or> c = CHR ''+'' then cs else t) | [] \<Rightarrow> []);
          ds = takeWhile isDecimalDigit r
      in if ds = [] then None else Some (sgn * digitsValue ds))"

text \<open>\<^verbatim>\<open>v || d\<close> on an environment variable: unset and the empty string are falsy.\<close>

definition orString :: "string option \<Rightarrow> string \<Rightarrow> string" where
  "orString v d = (case v of None \<Rightarrow> d | Some s \<Rightarrow> (if s = [] then d else s))"

text \<open>\<^verbatim>\<open>n || d\<close> on a number: \<^verbatim>\<open>NaN\<close> and \<open>0\<close> are falsy.\<close>

definition orNumber :: "int option \<Rightarrow> int \<Rightarrow> int" where
  "orNumber n d = (case n of None \<Rightarrow> d | Some k \<Rightarrow> (if k = 0 then d else k))"

text \<open>A template literal prints an unset variable as the text \<^verbatim>\<open>undefined\<close>.\<close>

definition template :: "string option \<Rightarrow> string" where
  "template v = (case v of None \<Rightarrow> ''undefined'' | Some s \<Rightarrow> s)"

text \<open>
  \<^verbatim>\<open>xs.slice(start, end)\<close>: a negative index counts from the end, and both are
  clamped to the array.
\<close>

definition relativeIndex :: "nat \<Rightarrow> int \<Rightarrow> nat" where
  "relativeIndex len k = (if k < 0 then nat (max (int len + k) 0) else min (nat k) len)"

definition slice :: "'a list \<Rightarrow> int \<Rightarrow> int \<Rightarrow> 'a list" where
  "slice xs start stop =
     (let a = relativeIndex (length xs) start; b = relativeIndex (length xs) stop
      in take (b - a) (drop a xs))"

text \<open>\<^verbatim>\<open>xs[i]\<close>: \<^verbatim>\<open>undefined\<close> out of range.\<close>

definition at :: "'a list \<Rightarrow> nat \<Rightarrow> 'a option" where
  "at xs i = (if i < length xs then Some (xs ! i) else None)"

subsection \<open>Configuration read from the environment\<close>

record process_env =
  INDEX_CHUNK_SIZE :: "string option"
  TD_SIRENE_INDEX_MAX_CONCURRENT_REQUESTS :: "string option"
  TD_SIRENE_INDEX_NB_REPLICAS :: "string option"
  TD_SIRENE_INDEX_REFRESH_INTERVAL :: "string option"
  MAX_ROWS :: "string option"

definition unconfigured :: process_env where
  "unconfigured =
     \<lparr>INDEX_CHUNK_SIZE = None, TD_SIRENE_INDEX_MAX_CONCURRENT_REQUESTS = None,
      TD_SIRENE_INDEX_NB_REPLICAS = None, TD_SIRENE_INDEX_REFRESH_INTERVAL = None,
      MAX_ROWS = None\<rparr>"

definition CHUNK_SIZE :: "process_env \<Rightarrow> int" where
  "CHUNK_SIZE env = orNumber (parseInt (template (INDEX_CHUNK_SIZE env))) 10000"

definition maxConcurrentRequests :: "process_env \<Rightarrow> int" where
  "maxConcurrentRequests env =
     (case parseInt (orString (TD_SIRENE_INDEX_MAX_CONCURRENT_REQUESTS env) ''1'') of
        None \<Rightarrow> 2
      | Some m \<Rightarrow> m)"

subsection \<open>Write actions, bulk bodies and bulk responses\<close>

text \<open>
  The metadata object \<^verbatim>\<open>{ _id, _index, _type }\<close> of one operation, and the container
  \<^verbatim>\<open>{ <operation>: metadata }\<close> that precedes each document in a bulk body. A write
  action is the pair \<^verbatim>\<open>[container, document]\<close>; \<^verbatim>\<open>flat()\<close> lays the pairs out as
  the alternating lines of the bulk request.
\<close>

text \<open>
  The values a property read can give in this file: a text, a function with its
  \<^verbatim>\<open>length\<close> (the number of its parameters), or the object \<^verbatim>\<open>Object.prototype\<close>.
\<close>

datatype js_value = JString string | JFunction string nat | JPrototype

record bulk_operation =
  es_id :: "js_value option"
  es_index :: string
  es_type :: string

datatype bulk_container = Container string bulk_operation

type_synonym 'd write_action = "bulk_container \<times> 'd"

datatype 'd bulk_line = Header bulk_container | Source 'd

definition flat :: "'d write_action list \<Rightarrow> 'd bulk_line list" where
  "flat payload = concat (map (\<lambda>(c, d). [Header c, Source d]) payload)"

text \<open>
  \<^verbatim>\<open>line.index?._id\<close>: the id of an \<^verbatim>\<open>index\<close> container; a container of another
  operation has no \<^verbatim>\<open>index\<close> property, and on a document line the property is at
  most a column value, which has no \<^verbatim>\<open>_id\<close>.
\<close>

fun index_id :: "'d bulk_line \<Rightarrow> js_value option" where
  "index_id (Header (Container operation m)) = (if operation = ''index'' then es_id m else None)"
| "index_id (Source d) = None"

text \<open>
  One item of a bulk response maps the operation name to its result; \<^verbatim>\<open>Object.keys\<close>
  lists the names in insertion order.
\<close>

record response_item =
  item_status :: "int option"
  item_error :: "string option"

type_synonym bulk_item = "(string \<times> response_item) list"

record bulk_response =
  errors :: bool
  items :: "bulk_item list"

datatype exn = TypeError | Rejected string

text \<open>The calls to the client and to the logger, in the order they are made.\<close>

datatype 'd effect =
    Client_bulk "'d bulk_line list"
  | Client_index string "js_value option" "'d bulk_line option"
  | Info_indexing nat string
  | Warn_retrying "js_value option" string
  | Error_retrying "js_value option" string string
  | Error_bulkIndex int "string option" "'d bulk_line option"
  | Error_fatal string exn
  | Error_malformed nat string 'd

text \<open>
  Statements in sequence: the effects add up, and the first exception ends the
  sequence.
\<close>

fun sequentially :: "('x \<Rightarrow> 'e list \<times> exn option) \<Rightarrow> 'x list \<Rightarrow> 'e list \<times> exn option" where
  "sequentially f [] = ([], None)"
| "sequentially f (x # xs) =
     (case f x of
        (es, Some e) \<Rightarrow> (es, Some e)
      | (es, None) \<Rightarrow> (case sequentially f xs of (es', r) \<Rightarrow> (es @ es', r)))"

subsection \<open>logBulkErrorsAndRetry\<close>

text \<open>
  The body of the inner loop, for item \<open>k\<close> and one of its operation names.
  \<open>indexReply k operation\<close> is what \<^verbatim>\<open>client.index\<close> answers to the retry made
  there: \<open>None\<close> when it resolves, the error when it rejects. Reading
  \<^verbatim>\<open>body[k * 2].index\<close> past the end of the body is a \<^verbatim>\<open>TypeError\<close>, raised while the
  warning's text is built, before anything is logged.
\<close>

definition handleOperation ::
  "string \<Rightarrow> 'd bulk_line list \<Rightarrow> (nat \<Rightarrow> string \<Rightarrow> string option) \<Rightarrow> nat \<Rightarrow> bulk_item \<Rightarrow> string
     \<Rightarrow> 'd effect list \<times> exn option" where
  "handleOperation indexName body indexReply k action operation =
     (if operation \<noteq> [] \<and> Option.bind (map_of action operation) item_error \<noteq> None then
        (case
           (if Option.bind (map_of action operation) item_status = Some 429 then
              (case at body (k * 2) of
                 None \<Rightarrow> ([], Some TypeError)
               | Some line \<Rightarrow>
                   ([Warn_retrying (index_id line) indexName,
                     Client_index indexName (index_id line) (at body (k * 2 + 1))]
                    @ (case indexReply k operation of
                         None \<Rightarrow> []
                       | Some err \<Rightarrow> [Error_retrying (index_id line) indexName err]),
                    None))
            else ([], None))
         of
           (es, Some e) \<Rightarrow> (es, Some e)
         | (es, None) \<Rightarrow>
             (es @ [Error_bulkIndex
                      (case Option.bind (map_of action operation) item_status of
                         Some st \<Rightarrow> st | None \<Rightarrow> 0)
                      (Option.bind (map_of action operation) item_error)
                      (at body (k * 2 + 1))],
              None))
      else ([], None))"

text \<open>The body of the outer loop: the operation names of item \<open>k\<close>, in order.\<close>

definition handleItem ::
  "string \<Rightarrow> 'd bulk_line list \<Rightarrow> (nat \<Rightarrow> string \<Rightarrow> string option) \<Rightarrow> nat \<times> bulk_item
     \<Rightarrow> 'd effect list \<times> exn option" where
  "handleItem indexName body indexReply ka =
     (case ka of (k, action) \<Rightarrow>
        sequentially (handleOperation indexName body indexReply k action) (map fst action))"

definition logBulkErrorsAndRetry ::
  "string \<Rightarrow> bulk_response \<Rightarrow> 'd bulk_line list \<Rightarrow> (nat \<Rightarrow> string \<Rightarrow> string option)
     \<Rightarrow> 'd effect list \<times> exn option" where
  "logBulkErrorsAndRetry indexName bulkResponse body indexReply =
     (if errors bulkResponse then
        sequentially (handleItem indexName body indexReply) (enumerate 0 (items bulkResponse))
      else ([], None))"

subsection \<open>request and requestBulkIndex\<close>

text \<open>
  \<open>bulkReply\<close> is the answer of \<^verbatim>\<open>client.bulk\<close>: \<open>Inl\<close> when the call rejects,
  \<open>Inr\<close> the response (\<open>None\<close> for a falsy one). An exception of
  \<^verbatim>\<open>logBulkErrorsAndRetry\<close> is raised inside the same \<^verbatim>\<open>try\<close>.
\<close>

definition requestBulkIndex ::
  "string \<Rightarrow> (string + bulk_response option) \<Rightarrow> (nat \<Rightarrow> string \<Rightarrow> string option)
     \<Rightarrow> 'd bulk_line list \<Rightarrow> 'd effect list \<times> exn option" where
  "requestBulkIndex indexName bulkReply indexReply body =
     (if length body = 0 then ([], None)
      else
        (case bulkReply of
           Inl bulkIndexError \<Rightarrow>
             ([Client_bulk body, Error_fatal indexName (Rejected bulkIndexError)], None)
         | Inr None \<Rightarrow> ([Client_bulk body], None)
         | Inr (Some bulkResponse) \<Rightarrow>
             (case logBulkErrorsAndRetry indexName bulkResponse body indexReply of
                (es, None) \<Rightarrow> (Client_bulk body # es, None)
              | (es, Some bulkIndexError) \<Rightarrow>
                  (Client_bulk body # es @ [Error_fatal indexName bulkIndexError], None))))"

text \<open>
  The fields of \<^verbatim>\<open>IndexProcessConfig\<close> that the file reads. \<open>dataFormatterFn\<close> has
  its extras applied already and answers \<open>Inl\<close> when it rejects; \<open>transformCsv\<close>
  answers with the call it makes to the callback it is handed.
\<close>

datatype setting = Num int | Str string

type_synonym settings = "(string \<times> setting) list"

datatype 'r callback = NotCalled | Called "string option" "'r option"

record ('d, 'm) index_config =
  cfg_alias :: string
  idKey :: string
  cfg_mappings :: "'m option"
  cfg_settings :: "settings option"
  dataFormatterFn :: "('d write_action list \<Rightarrow> string + 'd write_action list) option"
  transformCsv :: "('d \<Rightarrow> 'd callback) option"

definition request ::
  "string \<Rightarrow> ('d, 'm) index_config \<Rightarrow> (string + bulk_response option)
     \<Rightarrow> (nat \<Rightarrow> string \<Rightarrow> string option) \<Rightarrow> 'd write_action list \<Rightarrow> 'd effect list \<times> exn option" where
  "request indexName indexConfig bulkReply indexReply bodyChunk =
     (let info = (if length bodyChunk \<noteq> 0 then [Info_indexing (length bodyChunk) indexName] else [])
      in case dataFormatterFn indexConfig of
           Some f \<Rightarrow>
             (case f bodyChunk of
                Inl err \<Rightarrow> (info, Some (Rejected err))
              | Inr formattedChunk \<Rightarrow>
                  (case requestBulkIndex indexName bulkReply indexReply (flat formattedChunk) of
                     (es, r) \<Rightarrow> (info @ es, r)))
         | None \<Rightarrow>
             (case requestBulkIndex indexName bulkReply indexReply (flat bodyChunk) of
                (es, r) \<Rightarrow> (info @ es, r)))"

subsection \<open>bulkIndexByChunks\<close>

text \<open>
  The dispatcher runs on one thread: it starts a call of \<^verbatim>\<open>request\<close>, which returns a
  promise at once, and gives up control only at an \<^verbatim>\<open>await\<close>. The model keeps a
  logical clock. The \<open>k\<close>-th call of \<^verbatim>\<open>request\<close> (counted from 0) is started at the
  current tick and its promise settles \<open>fst (tm k)\<close> ticks later, rejected when
  \<open>snd (tm k)\<close>; \<open>tm\<close> is the environment's choice. An \<^verbatim>\<open>await\<close> moves the clock
  to the tick at which the awaited promise settles, and leaves it where it is when the
  promise has settled already. Every call is recorded with its slice and its two ticks.
  A rejected promise that is never awaited is not followed further.
\<close>

datatype outcome = Returned | Threw

record 'a chunk_request =
  rq_slice :: "'a list"
  rq_started :: nat
  rq_settled :: nat
  rq_rejects :: bool

type_synonym timing = "nat \<Rightarrow> nat \<times> bool"

record 'a dispatch =
  clock :: nat
  calls :: "'a chunk_request list"
  promises :: "'a chunk_request list"
  numberOfChunkRequests :: int

definition initial :: "'a dispatch" where
  "initial = \<lparr>clock = 0, calls = [], promises = [], numberOfChunkRequests = 0\<rparr>"

definition callRequest :: "timing \<Rightarrow> 'a list \<Rightarrow> 'a dispatch \<Rightarrow> 'a chunk_request \<times> 'a dispatch" where
  "callRequest tm sl st =
     (let p = \<lparr>rq_slice = sl, rq_started = clock st,
                rq_settled = clock st + fst (tm (length (calls st))),
                rq_rejects = snd (tm (length (calls st)))\<rparr>
      in (p, st\<lparr>calls := calls st @ [p]\<rparr>))"

definition await :: "'a chunk_request \<Rightarrow> 'a dispatch \<Rightarrow> outcome \<times> 'a dispatch" where
  "await p st =
     (if rq_rejects p then Threw else Returned, st\<lparr>clock := max (clock st) (rq_settled p)\<rparr>)"

text \<open>
  \<^verbatim>\<open>Promise.race(ps)\<close> settles as the first promise of \<open>ps\<close> that has settled
  already, if there is one; otherwise as the one that settles next (the earlier in
  \<open>ps\<close> on a tie). Over no promise at all it never settles.
\<close>

definition race :: "nat \<Rightarrow> 'a chunk_request list \<Rightarrow> 'a chunk_request option" where
  "race now ps =
     (case filter (\<lambda>p. rq_settled p \<le> now) ps of
        p # _ \<Rightarrow> Some p
      | [] \<Rightarrow> (if ps = [] then None else Some (arg_min_list rq_settled ps)))"

text \<open>
  \<^verbatim>\<open>await Promise.all(ps)\<close>: throws when the first rejection happens, returns when
  the last promise is fulfilled.
\<close>

definition awaitAll :: "'a chunk_request list \<Rightarrow> 'a dispatch \<Rightarrow> outcome \<times> 'a dispatch" where
  "awaitAll ps st =
     (case filter rq_rejects ps of
        [] \<Rightarrow> (Returned, st\<lparr>clock := fold max (map rq_settled ps) (clock st)\<rparr>)
      | r # rs \<Rightarrow>
          (Threw, st\<lparr>clock := max (clock st) (fold min (map rq_settled rs) (rq_settled r))\<rparr>))"

text \<open>
  The \<^verbatim>\<open>for\<close> loop, from index \<open>i\<close>. With a chunk size below 1 the index never
  reaches the end of a non-empty body: the loop does not return, which is \<open>None\<close>.
\<close>

partial_function (option) chunkLoop ::
  "int \<Rightarrow> int \<Rightarrow> timing \<Rightarrow> 'a list \<Rightarrow> int \<Rightarrow> 'a dispatch \<Rightarrow> (outcome \<times> 'a dispatch) option"
where
  "chunkLoop C M tm body i st =
     (if i < int (length body) then
        (let stop = i + C;
             sl = slice body i stop;
             (promise, st1) = callRequest tm sl st
         in if M > 1 then
              (let st2 = st1\<lparr>promises := promises st1 @ [promise],
                             numberOfChunkRequests := numberOfChunkRequests st1 + 1\<rparr>
               in if numberOfChunkRequests st2 \<ge> M then
                    (case race (clock st2) (promises st2) of
                       None \<Rightarrow> None
                     | Some winner \<Rightarrow>
                         (case await winner st2 of
                            (Threw, st3) \<Rightarrow> Some (Threw, st3)
                          | (Returned, st3) \<Rightarrow>
                              chunkLoop C M tm body (i + C)
                                (st3\<lparr>numberOfChunkRequests := numberOfChunkRequests st3 - 1\<rparr>)))
                  else chunkLoop C M tm body (i + C) st2)
            else
              (let (again, st2) = callRequest tm sl st1
               in case await again st2 of
                    (Threw, st3) \<Rightarrow> Some (Threw, st3)
                  | (Returned, st3) \<Rightarrow> chunkLoop C M tm body (i + C) st3))
      else Some (Returned, st))"

declare chunkLoop.simps [code]

definition bulkIndexByChunks ::
  "process_env \<Rightarrow> timing \<Rightarrow> 'a list \<Rightarrow> (outcome \<times> 'a dispatch) option" where
  "bulkIndexByChunks env tm body =
     (if CHUNK_SIZE env > int (length body) then
        (let (p, st1) = callRequest tm body initial in Some (await p st1))
      else
        (case chunkLoop (CHUNK_SIZE env) (maxConcurrentRequests env) tm body 0 initial of
           None \<Rightarrow> None
         | Some (Threw, st) \<Rightarrow> Some (Threw, st)
         | Some (Returned, st) \<Rightarrow>
             (if length (promises st) > 0 then Some (awaitAll (promises st) st)
              else Some (Returned, st))))"

text \<open>
  The calls in flight at tick \<open>t\<close>: started, and not settled yet. The slices handed to
  \<^verbatim>\<open>request\<close>, in the order of the calls.
\<close>

definition outstanding :: "'a chunk_request list \<Rightarrow> nat \<Rightarrow> nat" where
  "outstanding rs t = length (filter (\<lambda>r. rq_started r \<le> t \<and> t < rq_settled r) rs)"

definition submitted :: "'a dispatch \<Rightarrow> 'a list list" where
  "submitted st = map rq_slice (calls st)"

text \<open>
  The chunking the specification describes: consecutive slices of \<open>c\<close> elements, the
  last one shorter when \<open>c\<close> does not divide the length.
\<close>

fun chunked :: "nat \<Rightarrow> 'a list \<Rightarrow> 'a list list" where
  "chunked c xs = (if c = 0 \<or> xs = [] then [] else take c xs # chunked c (drop c xs))"

declare chunked.simps [simp del]

subsection \<open>The writable stream: one record to one write action\<close>

text \<open>
  A parsed CSV record is a plain object: its own properties map a column name to its
  text, and every other name is looked up in \<^verbatim>\<open>Object.prototype\<close>. \<open>property\<close> is
  the read \<^verbatim>\<open>doc[name]\<close>, \<open>None\<close> for \<^verbatim>\<open>undefined\<close>; \<open>jsLength\<close> is the
  read of \<^verbatim>\<open>.length\<close> on its result, the number of parameters for a function.
\<close>

type_synonym csv_row = "string \<rightharpoonup> string"

definition objectPrototype :: "string \<Rightarrow> js_value option" where
  "objectPrototype name =
     map_of
       [(''constructor'', JFunction ''Object'' 1),
        (''hasOwnProperty'', JFunction ''hasOwnProperty'' 1),
        (''isPrototypeOf'', JFunction ''isPrototypeOf'' 1),
        (''propertyIsEnumerable'', JFunction ''propertyIsEnumerable'' 1),
        (''toLocaleString'', JFunction ''toLocaleString'' 0),
        (''toString'', JFunction ''toString'' 0),
        (''valueOf'', JFunction ''valueOf'' 0),
        (''__defineGetter__'', JFunction ''__defineGetter__'' 2),
        (''__defineSetter__'', JFunction ''__defineSetter__'' 2),
        (''__lookupGetter__'', JFunction ''__lookupGetter__'' 1),
        (''__lookupSetter__'', JFunction ''__lookupSetter__'' 1),
        (''__proto__'', JPrototype)]
       name"

definition property :: "csv_row \<Rightarrow> string \<Rightarrow> js_value option" where
  "property doc name =
     (case doc name of Some v \<Rightarrow> Some (JString v) | None \<Rightarrow> objectPrototype name)"

fun jsLength :: "js_value \<Rightarrow> nat option" where
  "jsLength (JString v) = Some (length v)"
| "jsLength (JFunction f n) = Some n"
| "jsLength JPrototype = None"

text \<open>
  \<open>formatLine\<close> is the callback of \<^verbatim>\<open>csvLines.map\<close> in \<^verbatim>\<open>writev\<close>: it answers the
  error it logs, if any, and the write action, \<open>None\<close> for \<^verbatim>\<open>null\<close>. The test
  \<^verbatim>\<open>!doc[idKey].length\<close> holds for a length of 0 and for no length at all.
\<close>

definition formatLine ::
  "string \<Rightarrow> string \<Rightarrow> nat \<Rightarrow> csv_row \<Rightarrow> csv_row effect list \<times> csv_row write_action option" where
  "formatLine idKeyName indexName i doc =
     (if property doc idKeyName = None \<or>
         (case Option.bind (property doc idKeyName) jsLength of Some n \<Rightarrow> n = 0 | None \<Rightarrow> True) then
        ([Error_malformed i idKeyName doc], None)
      else if property doc idKeyName = Some (JString idKeyName) then ([], None)
      else
        ([], Some (Container ''index''
                     \<lparr>es_id = property doc idKeyName, es_index = indexName, es_type = ''_doc''\<rparr>,
                   doc)))"

definition writev ::
  "(csv_row, 'm) index_config \<Rightarrow> string \<Rightarrow> process_env \<Rightarrow> timing \<Rightarrow> csv_row list
     \<Rightarrow> csv_row effect list \<times> (outcome \<times> csv_row write_action dispatch) option" where
  "writev indexConfig indexName env tm csvLines =
     (let body = map (\<lambda>(i, doc). formatLine (idKey indexConfig) indexName i doc)
                   (enumerate 0 csvLines)
      in (concat (map fst body),
          bulkIndexByChunks env tm [line. Some line \<leftarrow> map snd body]))"

subsection \<open>The transform installed on the CSV parser\<close>

text \<open>
  The function handed to \<^verbatim>\<open>.transform\<close> in \<^verbatim>\<open>streamReadAndIndex\<close>, as the call it
  makes to its callback. The parser takes the rows one at a time: it forwards the row
  the callback is given, fails on the error the callback is given, and waits for ever
  on a row whose callback is not called.
\<close>

definition transform :: "('d, 'm) index_config \<Rightarrow> 'd \<Rightarrow> 'd callback" where
  "transform indexConfig data =
     (case transformCsv indexConfig of Some f \<Rightarrow> f data | None \<Rightarrow> NotCalled)"

datatype stream_end = Ended | Stalled | Failed string

fun forwarded :: "('d \<Rightarrow> 'd callback) \<Rightarrow> 'd list \<Rightarrow> 'd list \<times> stream_end" where
  "forwarded t [] = ([], Ended)"
| "forwarded t (row # rows) =
     (case t row of
        NotCalled \<Rightarrow> ([], Stalled)
      | Called (Some err) r \<Rightarrow> ([], Failed err)
      | Called None None \<Rightarrow> forwarded t rows
      | Called None (Some r) \<Rightarrow> (case forwarded t rows of (out, e) \<Rightarrow> (r # out, e)))"

subsection \<open>The cluster: indices and aliases\<close>

text \<open>
  The part of the cluster the administration calls read and change: the names of the
  indices, the pairs (index, alias) that bind an alias, and the settings given to each
  index, latest first. An index pattern \<^verbatim>\<open>prefix*\<close> selects the names that start with
  the prefix; the actions of one \<^verbatim>\<open>updateAliases\<close> call apply in order, all or none.
\<close>

record cluster =
  indices :: "string list"
  aliases :: "(string \<times> string) list"
  index_settings :: "(string \<times> settings) list"

definition startsWith :: "string \<Rightarrow> string \<Rightarrow> bool" where
  "startsWith p n = (take (length p) n = p)"

definition cat_aliases :: "cluster \<Rightarrow> string \<Rightarrow> string list" where
  "cat_aliases c name = map fst (filter (\<lambda>(i, a). a = name) (aliases c))"

definition cat_indices :: "cluster \<Rightarrow> string \<Rightarrow> string list" where
  "cat_indices c p = filter (startsWith p) (indices c)"

definition indices_putSettings :: "cluster \<Rightarrow> string \<Rightarrow> settings \<Rightarrow> string + cluster" where
  "indices_putSettings c name s =
     (if name \<in> set (indices c) then Inr (c\<lparr>index_settings := (name, s) # index_settings c\<rparr>)
      else Inl ''index_not_found_exception'')"

datatype alias_action = Remove "string list" string | Add string string

fun aliasAction :: "alias_action \<Rightarrow> cluster \<Rightarrow> string + cluster" where
  "aliasAction (Remove names a) c =
     Inr (c\<lparr>aliases := filter (\<lambda>(i, b). b \<noteq> a \<or> i \<notin> set names) (aliases c)\<rparr>)"
| "aliasAction (Add name a) c =
     (if name \<in> set (indices c) then
        Inr (c\<lparr>aliases := (if (name, a) \<in> set (aliases c) then aliases c
                              else aliases c @ [(name, a)])\<rparr>)
      else Inl ''index_not_found_exception'')"

fun indices_updateAliases :: "cluster \<Rightarrow> alias_action list \<Rightarrow> string + cluster" where
  "indices_updateAliases c [] = Inr c"
| "indices_updateAliases c (x # xs) =
     (case aliasAction x c of Inl e \<Rightarrow> Inl e | Inr c' \<Rightarrow> indices_updateAliases c' xs)"

definition indices_delete :: "cluster \<Rightarrow> string list \<Rightarrow> cluster" where
  "indices_delete c names =
     c\<lparr>indices := filter (\<lambda>n. n \<notin> set names) (indices c),
       aliases := filter (\<lambda>(i, a). i \<notin> set names) (aliases c)\<rparr>"

subsection \<open>createIndexRelease and finalizeNewIndexRelease\<close>

text \<open>
  The body of the create request has at most the two properties \<^verbatim>\<open>mappings\<close> and
  \<^verbatim>\<open>settings\<close>. Spreading an object into it sets the properties the object has, in
  place of the ones of the same name set before. \<^verbatim>\<open>INDEX_ALIAS_NAME_SEPARATOR\<close>, the
  version of \<^verbatim>\<open>package.json\<close> and \<^verbatim>\<open>Date.now()\<close> are parameters.
\<close>

record 'm create_body =
  body_mappings :: "'m option"
  body_settings :: "settings option"

definition spread :: "'m create_body \<Rightarrow> 'm create_body \<Rightarrow> 'm create_body" where
  "spread obj src =
     \<lparr>body_mappings = (case body_mappings src of Some m \<Rightarrow> Some m | None \<Rightarrow> body_mappings obj),
      body_settings = (case body_settings src of Some s \<Rightarrow> Some s | None \<Rightarrow> body_settings obj)\<rparr>"

definition createBody :: "('d, 'm) index_config \<Rightarrow> 'm create_body" where
  "createBody indexConfig =
     spread
       (spread
          (spread \<lparr>body_mappings = None, body_settings = None\<rparr>
             \<lparr>body_mappings = cfg_mappings indexConfig, body_settings = None\<rparr>)
          \<lparr>body_mappings = None,
            body_settings = Some [(''refresh_interval'', Num (- 1)), (''number_of_replicas'', Num 0)]\<rparr>)
       \<lparr>body_mappings = None, body_settings = cfg_settings indexConfig\<rparr>"

fun decimal :: "nat \<Rightarrow> string" where
  "decimal n = (if n < 10 then [char_of (48 + n)] else decimal (n div 10) @ [char_of (48 + n mod 10)])"

declare decimal.simps [simp del]

definition getIndexVersionName :: "string \<Rightarrow> string \<Rightarrow> nat \<Rightarrow> ('d, 'm) index_config \<Rightarrow> string" where
  "getIndexVersionName sep version now indexConfig =
     cfg_alias indexConfig @ sep @ version @ sep @ decimal now"

definition indices_create :: "cluster \<Rightarrow> string \<Rightarrow> 'm create_body \<Rightarrow> string + cluster" where
  "indices_create c name body =
     (if name \<in> set (indices c) then Inl ''resource_already_exists_exception''
      else Inr (c\<lparr>indices := indices c @ [name],
                  index_settings :=
                    (name, case body_settings body of Some s \<Rightarrow> s | None \<Rightarrow> []) # index_settings c\<rparr>))"

definition createIndexRelease ::
  "string \<Rightarrow> string \<Rightarrow> nat \<Rightarrow> ('d, 'm) index_config \<Rightarrow> cluster \<Rightarrow> string + string \<times> cluster" where
  "createIndexRelease sep version now indexConfig c =
     (let indexName = getIndexVersionName sep version now indexConfig
      in case indices_create c indexName (createBody indexConfig) of
           Inl e \<Rightarrow> Inl e
         | Inr c' \<Rightarrow> Inr (indexName, c'))"

definition finalizeNewIndexRelease ::
  "string \<Rightarrow> string \<Rightarrow> process_env \<Rightarrow> string \<Rightarrow> string \<Rightarrow> cluster \<Rightarrow> string + cluster" where
  "finalizeNewIndexRelease sep version env indexAlias indexName c =
     (let bindedIndexes = cat_aliases c indexAlias
      in case indices_putSettings c indexName
                [(''number_of_replicas'', Str (orString (TD_SIRENE_INDEX_NB_REPLICAS env) ''3'')),
                 (''refresh_interval'', Str (orString (TD_SIRENE_INDEX_REFRESH_INTERVAL env) ''1s''))]
         of
           Inl e \<Rightarrow> Inl e
         | Inr c1 \<Rightarrow>
             (case indices_updateAliases c1
                     ((if length bindedIndexes \<noteq> 0 then [Remove bindedIndexes indexAlias] else [])
                      @ [Add indexName indexAlias])
              of
                Inl e \<Rightarrow> Inl e
              | Inr c2 \<Rightarrow>
                  (let oldIndices =
                         butlast (sort (filter (\<lambda>name. name \<noteq> indexName)
                                          (cat_indices c2 (indexAlias @ sep @ version @ sep))))
                   in if length oldIndices \<noteq> 0 then Inr (indices_delete c2 oldIndices)
                      else Inr c2)))"

subsection \<open>Example inputs\<close>

definition sireneConfig :: "(csv_row, unit) index_config" where
  "sireneConfig =
     \<lparr>cfg_alias = ''sirene'', idKey = ''siret'', cfg_mappings = None, cfg_settings = None,
      dataFormatterFn = None, transformCsv = None\<rparr>"

definition shardsConfig :: "(csv_row, unit) index_config" where
  "shardsConfig = sireneConfig\<lparr>cfg_settings := Some [(''number_of_shards'', Num 3)]\<rparr>"

definition emptyCluster :: cluster where
  "emptyCluster = \<lparr>indices = [], aliases = [], index_settings = []\<rparr>"

definition releaseCluster :: cluster where
  "releaseCluster =
     \<lparr>indices = [''sirene-1.0.0-100'', ''sirene-1.0.0-200'', ''sirene-1.0.0-300''],
      aliases = [(''sirene-1.0.0-200'', ''sirene'')], index_settings = []\<rparr>"

definition stagedCluster :: cluster where
  "stagedCluster =
     \<lparr>indices = [''sirene-1.0.0-100'', ''sirene-1.0.0-200'', ''sirene-1.0.0-300''],
      aliases = [(''sirene-1.0.0-100'', ''sirene'')], index_settings = []\<rparr>"

definition upgradedCluster :: cluster where
  "upgradedCluster =
     \<lparr>indices = [''sirene-1.0.0-100'', ''sirene-1.0.0-200'', ''sirene-1.1.0-300''],
      aliases = [(''sirene-1.0.0-200'', ''sirene'')], index_settings = []\<rparr>"

definition tooManyRequests :: bulk_response where
  "tooManyRequests =
     \<lparr>errors = True,
      items = [[(''index'', \<lparr>item_status = Some 201, item_error = None\<rparr>)],
               [(''index'', \<lparr>item_status = Some 429, item_error = Some ''es_rejected_execution_exception''\<rparr>)],
               [(''index'', \<lparr>item_status = Some 400, item_error = Some ''mapper_parsing_exception''\<rparr>)]]\<rparr>"

definition threeActions :: "string write_action list" where
  "threeActions =
     [(Container ''index'' \<lparr>es_id = Some (JString ''101''), es_index = ''sirene-1.0.0-300'', es_type = ''_doc''\<rparr>, ''doc101''),
      (Container ''index'' \<lparr>es_id = Some (JString ''102''), es_index = ''sirene-1.0.0-300'', es_type = ''_doc''\<rparr>, ''doc102''),
      (Container ''index'' \<lparr>es_id = Some (JString ''103''), es_index = ''sirene-1.0.0-300'', es_type = ''_doc''\<rparr>, ''doc103'')]"

definition chunksOfOneCapTwo :: process_env where
  "chunksOfOneCapTwo =
     unconfigured\<lparr>INDEX_CHUNK_SIZE := Some ''1'',
                  TD_SIRENE_INDEX_MAX_CONCURRENT_REQUESTS := Some ''2''\<rparr>"

definition chunksOfTwo :: process_env where
  "chunksOfTwo = unconfigured\<lparr>INDEX_CHUNK_SIZE := Some ''2''\<rparr>"

definition firstIsFast :: timing where
  "firstIsFast k = (if k = 0 then (1, False) else (100, False))"

definition steady :: timing where
  "steady k = (10, False)"

section \<open>Properties\<close>

subsection \<open>Configuration\<close>

lemma parseInt_one: "parseInt ''1'' = Some 1"
  by (simp add: parseInt_def isStrWhiteSpace_def isDecimalDigit_def digitsValue_def)

text \<open>
  C4. The claim: when the environment does not configure the maximum number of
  concurrent chunk requests, the cap defaults to 2. The code falls back to the text
  \<^verbatim>\<open>"1"\<close> before it parses, so the cap of an unconfigured environment is 1; the 2 of
  the comment is reached only by a value that does not start with a number.
\<close>

theorem maxConcurrentRequests_unset:
  "maxConcurrentRequests (env\<lparr>TD_SIRENE_INDEX_MAX_CONCURRENT_REQUESTS := None\<rparr>) = 1"
  by (simp add: maxConcurrentRequests_def orString_def parseInt_one)

lemma maxConcurrentRequests_not_a_number:
  "maxConcurrentRequests (env\<lparr>TD_SIRENE_INDEX_MAX_CONCURRENT_REQUESTS := Some ''two''\<rparr>) = 2"
  by (simp add: maxConcurrentRequests_def orString_def parseInt_def isStrWhiteSpace_def
      isDecimalDigit_def)

subsection \<open>createIndexRelease\<close>

lemma createBody_eq:
  "createBody cfg =
     \<lparr>body_mappings = cfg_mappings cfg,
      body_settings =
        Some (case cfg_settings cfg of
                Some s \<Rightarrow> s
              | None \<Rightarrow> [(''refresh_interval'', Num (- 1)), (''number_of_replicas'', Num 0)])\<rparr>"
  by (simp add: createBody_def spread_def split: option.splits)

text \<open>
  C5, as stated, fails: the caller's settings are not laid over the transient ones.
  A caller that sets only the number of shards gets an index whose create request
  carries neither \<^verbatim>\<open>refresh_interval\<close> nor \<^verbatim>\<open>number_of_replicas\<close>.
\<close>

theorem createBody_layering_counterexample:
  "cfg_settings shardsConfig = Some [(''number_of_shards'', Num 3)] \<and>
   body_settings (createBody shardsConfig) = Some [(''number_of_shards'', Num 3)] \<and>
   Option.bind (body_settings (createBody shardsConfig)) (\<lambda>s. map_of s ''refresh_interval'') = None \<and>
   Option.bind (body_settings (createBody shardsConfig)) (\<lambda>s. map_of s ''number_of_replicas'') = None"
  by (simp add: createBody_eq shardsConfig_def sireneConfig_def)

text \<open>
  C5, amended: the create request of \<^verbatim>\<open>createIndexRelease\<close> carries the caller's
  mappings as they are, and as settings the caller's settings object when there is one,
  whole and in place of the transient settings; the transient settings (refresh
  disabled, no replica) are sent only when the caller supplies no settings. The index
  is created under the generation name with these settings.
\<close>

theorem createIndexRelease_settings:
  "createIndexRelease sep version now cfg c = Inr (name, c') \<Longrightarrow>
     name = getIndexVersionName sep version now cfg \<and>
     createBody cfg =
       \<lparr>body_mappings = cfg_mappings cfg,
        body_settings =
          Some (case cfg_settings cfg of
                  Some s \<Rightarrow> s
                | None \<Rightarrow> [(''refresh_interval'', Num (- 1)), (''number_of_replicas'', Num 0)])\<rparr> \<and>
     indices c' = indices c @ [name] \<and>
     map_of (index_settings c') name =
       Some (case cfg_settings cfg of
               Some s \<Rightarrow> s
             | None \<Rightarrow> [(''refresh_interval'', Num (- 1)), (''number_of_replicas'', Num 0)])"
  by (auto simp add: createIndexRelease_def indices_create_def createBody_eq Let_def
      split: if_splits)

lemma getIndexVersionName_sirene:
  "getIndexVersionName ''-'' ''1.0.0'' 300 sireneConfig = ''sirene-1.0.0-300''"
  by code_simp

theorem createIndexRelease_settings_witness:
  "createIndexRelease ''-'' ''1.0.0'' 300 sireneConfig emptyCluster =
     Inr (''sirene-1.0.0-300'',
          \<lparr>indices = [''sirene-1.0.0-300''], aliases = [],
           index_settings =
             [(''sirene-1.0.0-300'',
               [(''refresh_interval'', Num (- 1)), (''number_of_replicas'', Num 0)])]\<rparr>) \<and>
   map_of
     (index_settings
        \<lparr>indices = [''sirene-1.0.0-300''], aliases = [],
         index_settings =
           [(''sirene-1.0.0-300'',
             [(''refresh_interval'', Num (- 1)), (''number_of_replicas'', Num 0)])]\<rparr>)
     ''sirene-1.0.0-300'' =
   Some (case cfg_settings sireneConfig of
           Some s \<Rightarrow> s
         | None \<Rightarrow> [(''refresh_interval'', Num (- 1)), (''number_of_replicas'', Num 0)])"
proof -
  have run:
    "createIndexRelease ''-'' ''1.0.0'' 300 sireneConfig emptyCluster =
       Inr (''sirene-1.0.0-300'',
            \<lparr>indices = [''sirene-1.0.0-300''], aliases = [],
             index_settings =
               [(''sirene-1.0.0-300'',
                 [(''refresh_interval'', Num (- 1)), (''number_of_replicas'', Num 0)])]\<rparr>)"
    by (simp add: createIndexRelease_def indices_create_def createBody_eq
        getIndexVersionName_sirene emptyCluster_def Let_def)
      (simp add: sireneConfig_def)
  from createIndexRelease_settings [OF run] run show ?thesis
    by simp
qed

subsection \<open>requestBulkIndex\<close>

text \<open>
  C7. An empty body makes no request. A bulk request that fails as a whole is logged
  once and the function returns: there is one call of the client, no second one, and
  no exception leaves \<^verbatim>\<open>requestBulkIndex\<close>, whatever the client answers.
\<close>

theorem requestBulkIndex_swallows:
  "requestBulkIndex indexName bulkReply indexReply [] = ([], None) \<and>
   requestBulkIndex indexName (Inl err) indexReply (l # ls) =
     ([Client_bulk (l # ls), Error_fatal indexName (Rejected err)], None) \<and>
   snd (requestBulkIndex indexName bulkReply indexReply body) = None"
  by (simp add: requestBulkIndex_def split: sum.splits option.splits prod.splits)

text \<open>
  Without a data formatter, \<^verbatim>\<open>request\<close> makes no call for an empty chunk, and for any
  other chunk it logs the size and sends the flattened chunk in one bulk call.
\<close>

lemma flat_nonempty: "chunk \<noteq> [] \<Longrightarrow> flat chunk \<noteq> []"
  by (cases chunk) (auto simp add: flat_def)

lemma request_empty:
  "dataFormatterFn cfg = None \<Longrightarrow> request indexName cfg bulkReply indexReply [] = ([], None)"
  by (simp add: request_def requestBulkIndex_def flat_def)

lemma request_one_bulk:
  assumes "dataFormatterFn cfg = None" and "chunk \<noteq> []"
  shows "\<exists>es. request indexName cfg bulkReply indexReply chunk =
           (Info_indexing (length chunk) indexName # Client_bulk (flat chunk) # es, None)"
  using assms flat_nonempty [OF assms(2)]
  by (auto simp add: request_def requestBulkIndex_def split: sum.splits option.splits prod.splits)

subsection \<open>The writable stream\<close>

text \<open>
  For an identifier column whose name is not a property of \<^verbatim>\<open>Object.prototype\<close>, the
  three cases of the callback are the ones the comments describe: a record without the
  column, or with an empty text there, is logged and dropped; a record that repeats the
  name of the column as its value is dropped without a log; every other record gives
  one \<^verbatim>\<open>index\<close> action with the value as id, for the generation index, paired with
  the record.
\<close>

lemma property_own: "doc k = Some v \<Longrightarrow> property doc k = Some (JString v)"
  by (simp add: property_def)

lemma property_ordinary: "objectPrototype k = None \<Longrightarrow> doc k = None \<Longrightarrow> property doc k = None"
  by (simp add: property_def)

lemma formatLine_ordinary_key:
  "(objectPrototype k = None \<and> doc k = None \<longrightarrow>
      formatLine k indexName i doc = ([Error_malformed i k doc], None)) \<and>
   (doc k = Some [] \<longrightarrow> formatLine k indexName i doc = ([Error_malformed i k doc], None)) \<and>
   (doc k = Some k \<and> k \<noteq> [] \<longrightarrow> formatLine k indexName i doc = ([], None)) \<and>
   (doc k = Some v \<and> v \<noteq> [] \<and> v \<noteq> k \<longrightarrow>
      formatLine k indexName i doc =
        ([], Some (Container ''index''
                     \<lparr>es_id = Some (JString v), es_index = indexName, es_type = ''_doc''\<rparr>,
                   doc)))"
  by (auto simp add: formatLine_def property_own property_ordinary)

lemma formatLine_siret:
  "formatLine ''siret'' ''sirene-1.0.0-300'' 0 [''nom'' \<mapsto> ''ACME''] =
     ([Error_malformed 0 ''siret'' [''nom'' \<mapsto> ''ACME'']], None) \<and>
   formatLine ''siret'' ''sirene-1.0.0-300'' 1 [''siret'' \<mapsto> ''siret''] = ([], None) \<and>
   formatLine ''siret'' ''sirene-1.0.0-300'' 2 [''siret'' \<mapsto> ''123''] =
     ([], Some (Container ''index''
                  \<lparr>es_id = Some (JString ''123''), es_index = ''sirene-1.0.0-300'',
                   es_type = ''_doc''\<rparr>,
                [''siret'' \<mapsto> ''123'']))"
proof -
  have ordinary: "objectPrototype ''siret'' = None"
    by (simp add: objectPrototype_def)
  from formatLine_ordinary_key [of "''siret''" "[''nom'' \<mapsto> ''ACME'']" "''sirene-1.0.0-300''" 0]
    formatLine_ordinary_key [of "''siret''" "[''siret'' \<mapsto> ''siret'']" "''sirene-1.0.0-300''" 1]
    formatLine_ordinary_key [of "''siret''" "[''siret'' \<mapsto> ''123'']" "''sirene-1.0.0-300''" 2 "''123''"]
    ordinary
  show ?thesis by simp
qed

text \<open>
  C8. The claim: a record without the identifier column gives no write action and one
  logged error. The code reads the column with \<^verbatim>\<open>doc[indexConfig.idKey]\<close>, which
  looks a missing name up in \<^verbatim>\<open>Object.prototype\<close>. With the identifier column named
  \<^verbatim>\<open>constructor\<close>, a record without that column reads the function \<^verbatim>\<open>Object\<close>, of
  length 1: neither test of the callback holds, nothing is logged, and a write action is
  built with the function as its id.
\<close>

theorem formatLine_inherited_key:
  "[''nom'' \<mapsto> ''ACME''] ''constructor'' = None \<and>
   formatLine ''constructor'' ''sirene-1.0.0-300'' 0 [''nom'' \<mapsto> ''ACME''] =
     ([], Some (Container ''index''
                  \<lparr>es_id = Some (JFunction ''Object'' 1), es_index = ''sirene-1.0.0-300'',
                   es_type = ''_doc''\<rparr>,
                [''nom'' \<mapsto> ''ACME'']))"
  by (simp add: formatLine_def property_def objectPrototype_def)

subsection \<open>The CSV transform\<close>

text \<open>
  C10. Without \<^verbatim>\<open>transformCsv\<close> the transform installed by \<^verbatim>\<open>streamReadAndIndex\<close>
  never calls its callback, and no row reaches the writable stream.
\<close>

theorem transform_without_hook:
  "transformCsv cfg = None \<Longrightarrow>
     transform cfg data = NotCalled \<and> fst (forwarded (transform cfg) rows) = []"
  by (cases rows) (simp_all add: transform_def)

theorem transform_without_hook_witness:
  "transformCsv sireneConfig = None \<and>
   transform sireneConfig [''siret'' \<mapsto> ''123''] = NotCalled \<and>
   fst (forwarded (transform sireneConfig) [[''siret'' \<mapsto> ''123''], [''siret'' \<mapsto> ''456'']]) = []"
proof -
  have h: "transformCsv sireneConfig = None"
    by (simp add: sireneConfig_def)
  from transform_without_hook [OF h] h show ?thesis
    by simp
qed

subsection \<open>finalizeNewIndexRelease\<close>

lemma butlast_sorted_distinct:
  fixes xs :: "'a::linorder list"
  assumes "sorted xs" "distinct xs"
  shows "x \<in> set (butlast xs) \<longleftrightarrow> x \<in> set xs \<and> (\<exists>y\<in>set xs. x < y)"
proof (cases xs rule: rev_cases)
  case Nil
  then show ?thesis by simp
next
  case (snoc ys z)
  from assms snoc have le: "\<forall>y\<in>set ys. y \<le> z" and nz: "z \<notin> set ys"
    by (auto simp add: sorted_append)
  from le nz have lt: "\<forall>y\<in>set ys. y < z"
    by (metis order_le_imp_less_or_eq)
  show ?thesis
  proof
    assume "x \<in> set (butlast xs)"
    with snoc lt show "x \<in> set xs \<and> (\<exists>y\<in>set xs. x < y)" by auto
  next
    assume r: "x \<in> set xs \<and> (\<exists>y\<in>set xs. x < y)"
    then obtain y where y: "y \<in> set xs" "x < y" by blast
    from y(1) snoc le have "y \<le> z" by auto
    with y(2) have "x \<noteq> z" by auto
    with r snoc show "x \<in> set (butlast xs)" by auto
  qed
qed

lemma indices_delete_Nil: "indices_delete c [] = c"
  by (simp add: indices_delete_def)

lemma remove_bound:
  "filter (\<lambda>(i, b). b \<noteq> a \<or> i \<notin> set (cat_aliases c a)) (aliases c) =
   filter (\<lambda>(i, b). b \<noteq> a) (aliases c)"
proof (rule filter_cong [OF refl])
  fix x assume x: "x \<in> set (aliases c)"
  obtain i b where xb: "x = (i, b)" by (cases x)
  have "b = a \<Longrightarrow> i \<in> set (cat_aliases c a)"
    using x xb by (force simp add: cat_aliases_def)
  with xb show "(case x of (i, b) \<Rightarrow> b \<noteq> a \<or> i \<notin> set (cat_aliases c a)) =
                (case x of (i, b) \<Rightarrow> b \<noteq> a)"
    by auto
qed

lemma none_bound:
  "cat_aliases c a = [] \<Longrightarrow> filter (\<lambda>(i, b). b \<noteq> a) (aliases c) = aliases c"
  by (auto simp add: cat_aliases_def filter_empty_conv filter_id_conv)

lemma not_bound_after_remove:
  "(G2, a) \<notin> set (filter (\<lambda>(i, b). b \<noteq> a) xs)"
  by auto

lemma aliasAction_Remove_bound:
  "aliasAction (Remove (cat_aliases c a) a) c =
     Inr (c\<lparr>aliases := filter (\<lambda>(i, b). b \<noteq> a) (aliases c)\<rparr>)"
  by (simp only: aliasAction.simps remove_bound)

lemma aliasAction_Add_fresh:
  "G2 \<in> set (indices c) \<Longrightarrow> (G2, a) \<notin> set (aliases c) \<Longrightarrow>
     aliasAction (Add G2 a) c = Inr (c\<lparr>aliases := aliases c @ [(G2, a)]\<rparr>)"
  by simp

lemma updateAliases_swap:
  assumes "G2 \<in> set (indices c)"
  shows "indices_updateAliases c
           ((if length (cat_aliases c a) \<noteq> 0 then [Remove (cat_aliases c a) a] else [])
            @ [Add G2 a]) =
         Inr (c\<lparr>aliases := filter (\<lambda>(i, b). b \<noteq> a) (aliases c) @ [(G2, a)]\<rparr>)"
proof (cases "cat_aliases c a = []")
  case True
  from none_bound [OF True] have f: "filter (\<lambda>(i, b). b \<noteq> a) (aliases c) = aliases c" .
  have "(G2, a) \<notin> set (aliases c)"
    using not_bound_after_remove [of G2 a "aliases c"] f by simp
  with True assms f show ?thesis by simp
next
  case False
  let ?c1 = "c\<lparr>aliases := filter (\<lambda>(i, b). b \<noteq> a) (aliases c)\<rparr>"
  have "G2 \<in> set (indices ?c1)" "(G2, a) \<notin> set (aliases ?c1)"
    using assms by auto
  from aliasAction_Add_fresh [OF this]
  have add: "aliasAction (Add G2 a) ?c1 =
               Inr (c\<lparr>aliases := filter (\<lambda>(i, b). b \<noteq> a) (aliases c) @ [(G2, a)]\<rparr>)"
    by simp
  from False have "indices_updateAliases c
           ((if length (cat_aliases c a) \<noteq> 0 then [Remove (cat_aliases c a) a] else [])
            @ [Add G2 a]) = indices_updateAliases c [Remove (cat_aliases c a) a, Add G2 a]"
    by simp
  also have "\<dots> = Inr (c\<lparr>aliases := filter (\<lambda>(i, b). b \<noteq> a) (aliases c) @ [(G2, a)]\<rparr>)"
    by (simp only: indices_updateAliases.simps aliasAction_Remove_bound sum.case add)
  finally show ?thesis .
qed

lemma delete_old:
  "(if length old \<noteq> 0 then Inr (indices_delete c old) else Inr c) = Inr (indices_delete c old)"
  by (cases old) (simp_all add: indices_delete_Nil)

lemma finalizeNewIndexRelease_eq:
  "finalizeNewIndexRelease sep version env a G2 c =
     (if G2 \<in> set (indices c) then
        Inr (indices_delete
               (c\<lparr>index_settings :=
                     (G2, [(''number_of_replicas'', Str (orString (TD_SIRENE_INDEX_NB_REPLICAS env) ''3'')),
                           (''refresh_interval'', Str (orString (TD_SIRENE_INDEX_REFRESH_INTERVAL env) ''1s''))])
                     # index_settings c,
                   aliases := filter (\<lambda>(i, b). b \<noteq> a) (aliases c) @ [(G2, a)]\<rparr>)
               (butlast (sort (filter (\<lambda>n. n \<noteq> G2)
                                 (filter (startsWith (a @ sep @ version @ sep)) (indices c))))))
      else Inl ''index_not_found_exception'')"
proof (cases "G2 \<in> set (indices c)")
  case False
  then show ?thesis
    by (simp add: finalizeNewIndexRelease_def indices_putSettings_def)
next
  case True
  let ?c1 = "c\<lparr>index_settings :=
                 (G2, [(''number_of_replicas'', Str (orString (TD_SIRENE_INDEX_NB_REPLICAS env) ''3'')),
                       (''refresh_interval'', Str (orString (TD_SIRENE_INDEX_REFRESH_INTERVAL env) ''1s''))])
                 # index_settings c\<rparr>"
  have put: "indices_putSettings c G2
               [(''number_of_replicas'', Str (orString (TD_SIRENE_INDEX_NB_REPLICAS env) ''3'')),
                (''refresh_interval'', Str (orString (TD_SIRENE_INDEX_REFRESH_INTERVAL env) ''1s''))]
             = Inr ?c1"
    using True by (simp add: indices_putSettings_def)
  have same: "cat_aliases ?c1 a = cat_aliases c a"
    by (simp add: cat_aliases_def)
  have "G2 \<in> set (indices ?c1)" using True by simp
  from updateAliases_swap [OF this, of a]
  have upd: "indices_updateAliases ?c1
           ((if length (cat_aliases c a) \<noteq> 0 then [Remove (cat_aliases c a) a] else [])
            @ [Add G2 a]) =
         Inr (?c1\<lparr>aliases := filter (\<lambda>(i, b). b \<noteq> a) (aliases c) @ [(G2, a)]\<rparr>)"
    by (simp only: same) simp
  show ?thesis
    unfolding finalizeNewIndexRelease_def Let_def put sum.case upd delete_old
    using True by (simp add: cat_indices_def)
qed

text \<open>
  C3, amended: after \<^verbatim>\<open>finalizeNewIndexRelease\<close> returns for the generation \<open>G2\<close>,
  on a cluster whose index names are distinct, the alias resolves to \<open>G2\<close> alone and
  \<open>G2\<close> exists. Of the generations whose names start with the alias, the separator,
  the current package version and the separator, \<open>G2\<close> apart, the one with the greatest
  name in string order is kept and the others are deleted; every other index of the
  cluster is left as it was. The generation bound before is the one kept exactly when
  its name is that greatest one.
\<close>

theorem finalizeNewIndexRelease_keeps_greatest:
  assumes ok: "finalizeNewIndexRelease sep version env a G2 c = Inr c'"
    and d: "distinct (indices c)"
  shows "cat_aliases c' a = [G2] \<and> G2 \<in> set (indices c') \<and>
     (\<forall>n. n \<in> set (indices c') \<longleftrightarrow>
        n \<in> set (indices c) \<and>
        \<not> (startsWith (a @ sep @ version @ sep) n \<and> n \<noteq> G2 \<and>
           (\<exists>m. m \<in> set (indices c) \<and> startsWith (a @ sep @ version @ sep) m \<and> m \<noteq> G2 \<and> n < m)))"
proof -
  let ?p = "a @ sep @ version @ sep"
  let ?cand = "filter (\<lambda>n. n \<noteq> G2) (filter (startsWith ?p) (indices c))"
  let ?old = "butlast (sort ?cand)"
  from ok have G2: "G2 \<in> set (indices c)"
    by (simp add: finalizeNewIndexRelease_eq split: if_splits)
  have old: "n \<in> set ?old \<longleftrightarrow> n \<in> set ?cand \<and> (\<exists>y\<in>set ?cand. n < y)" for n
    using butlast_sorted_distinct [of "sort ?cand" n] d by simp
  have G2old: "G2 \<notin> set ?old"
    using old [of G2] by simp
  from ok G2 have c': "c' = indices_delete
               (c\<lparr>index_settings :=
                     (G2, [(''number_of_replicas'', Str (orString (TD_SIRENE_INDEX_NB_REPLICAS env) ''3'')),
                           (''refresh_interval'', Str (orString (TD_SIRENE_INDEX_REFRESH_INTERVAL env) ''1s''))])
                     # index_settings c,
                   aliases := filter (\<lambda>(i, b). b \<noteq> a) (aliases c) @ [(G2, a)]\<rparr>) ?old"
    by (simp add: finalizeNewIndexRelease_eq)
  have ix: "indices c' = filter (\<lambda>n. n \<notin> set ?old) (indices c)"
    by (simp add: c' indices_delete_def)
  have al: "aliases c' = filter (\<lambda>(i, b). i \<notin> set ?old)
                           (filter (\<lambda>(i, b). b \<noteq> a) (aliases c) @ [(G2, a)])"
    by (simp add: c' indices_delete_def)
  have 1: "cat_aliases c' a = [G2]"
    unfolding cat_aliases_def al using G2old
    by (auto simp add: filter_empty_conv)
  have 2: "G2 \<in> set (indices c')"
    using G2 G2old by (simp add: ix)
  have 3: "n \<in> set (indices c') \<longleftrightarrow>
        n \<in> set (indices c) \<and>
        \<not> (startsWith ?p n \<and> n \<noteq> G2 \<and>
           (\<exists>m. m \<in> set (indices c) \<and> startsWith ?p m \<and> m \<noteq> G2 \<and> n < m))" for n
    unfolding ix using old [of n] by auto
  from 1 2 3 show ?thesis by blast
qed


text \<open>
  C3, as stated, fails twice. A generation loaded without release after \<open>G1\<close> has a
  greater name than \<open>G1\<close>: it is the one kept, and \<open>G1\<close>, bound to the alias
  until then, is deleted. And after a change of package version the generations of the
  old version do not match the pattern: both of them stay beside \<open>G2\<close>.
\<close>

theorem finalizeNewIndexRelease_rollback_counterexample:
  "cat_aliases stagedCluster ''sirene'' = [''sirene-1.0.0-100''] \<and>
   map_sum id indices
     (finalizeNewIndexRelease ''-'' ''1.0.0'' unconfigured ''sirene'' ''sirene-1.0.0-300'' stagedCluster) =
     Inr [''sirene-1.0.0-200'', ''sirene-1.0.0-300''] \<and>
   cat_aliases upgradedCluster ''sirene'' = [''sirene-1.0.0-200''] \<and>
   map_sum id indices
     (finalizeNewIndexRelease ''-'' ''1.1.0'' unconfigured ''sirene'' ''sirene-1.1.0-300'' upgradedCluster) =
     Inr [''sirene-1.0.0-100'', ''sirene-1.0.0-200'', ''sirene-1.1.0-300'']"
  by code_simp

lemma finalize_releaseCluster:
  "finalizeNewIndexRelease ''-'' ''1.0.0'' unconfigured ''sirene'' ''sirene-1.0.0-300'' releaseCluster =
     Inr \<lparr>indices = [''sirene-1.0.0-200'', ''sirene-1.0.0-300''],
          aliases = [(''sirene-1.0.0-300'', ''sirene'')],
          index_settings =
            [(''sirene-1.0.0-300'',
              [(''number_of_replicas'', Str ''3''), (''refresh_interval'', Str ''1s'')])]\<rparr>"
  by code_simp

theorem finalizeNewIndexRelease_keeps_greatest_witness:
  "finalizeNewIndexRelease ''-'' ''1.0.0'' unconfigured ''sirene'' ''sirene-1.0.0-300'' releaseCluster =
     Inr \<lparr>indices = [''sirene-1.0.0-200'', ''sirene-1.0.0-300''],
          aliases = [(''sirene-1.0.0-300'', ''sirene'')],
          index_settings =
            [(''sirene-1.0.0-300'',
              [(''number_of_replicas'', Str ''3''), (''refresh_interval'', Str ''1s'')])]\<rparr> \<and>
   distinct (indices releaseCluster) \<and>
   cat_aliases
     \<lparr>indices = [''sirene-1.0.0-200'', ''sirene-1.0.0-300''],
      aliases = [(''sirene-1.0.0-300'', ''sirene'')],
      index_settings =
        [(''sirene-1.0.0-300'',
          [(''number_of_replicas'', Str ''3''), (''refresh_interval'', Str ''1s'')])]\<rparr>
     ''sirene'' = [''sirene-1.0.0-300'']"
proof -
  have d: "distinct (indices releaseCluster)"
    by (simp add: releaseCluster_def)
  from finalizeNewIndexRelease_keeps_greatest [OF finalize_releaseCluster d]
    finalize_releaseCluster d
  show ?thesis by blast
qed

subsection \<open>logBulkErrorsAndRetry\<close>

lemma sequentially_returns:
  "(\<And>x. x \<in> set xs \<Longrightarrow> snd (f x) = None) \<Longrightarrow>
     sequentially f xs = (concat (map (\<lambda>x. fst (f x)) xs), None)"
proof (induction xs)
  case Nil
  then show ?case by simp
next
  case (Cons x xs)
  obtain es where fx: "f x = (es, None)"
    using Cons.prems [of x] by (cases "f x") auto
  have "sequentially f xs = (concat (map (\<lambda>x. fst (f x)) xs), None)"
    using Cons by simp
  with fx show ?case by simp
qed

lemma handleOperation_returns:
  "k * 2 < length body \<Longrightarrow> snd (handleOperation indexName body indexReply k action operation) = None"
  by (simp add: handleOperation_def at_def split: option.splits)

lemma handleItem_returns:
  "k * 2 < length body \<Longrightarrow> snd (handleItem indexName body indexReply (k, action)) = None"
  by (simp add: handleItem_def sequentially_returns handleOperation_returns)

lemma logBulkErrorsAndRetry_blocks:
  assumes "errors resp" and "2 * length (items resp) \<le> length body"
  shows "logBulkErrorsAndRetry indexName resp body indexReply =
           (concat (map (\<lambda>x. fst (handleItem indexName body indexReply x)) (enumerate 0 (items resp))), None)"
proof -
  have "snd (handleItem indexName body indexReply x) = None"
    if "x \<in> set (enumerate 0 (items resp))" for x
  proof -
    obtain k action where x: "x = (k, action)" by (cases x)
    from that x have "k < length (items resp)"
      by (simp add: in_set_enumerate_eq)
    with assms(2) have "k * 2 < length body" by simp
    with x show ?thesis by (simp add: handleItem_returns)
  qed
  with assms(1) show ?thesis
    by (simp add: logBulkErrorsAndRetry_def sequentially_returns)
qed

lemma enumerate_split:
  "k < length xs \<Longrightarrow>
     enumerate 0 xs = take k (enumerate 0 xs) @ (k, xs ! k) # drop (Suc k) (enumerate 0 xs)"
  using id_take_nth_drop [of k "enumerate 0 xs"] by (simp add: nth_enumerate_eq)

lemma handleItem_single:
  assumes "operation \<noteq> []" and "item_error r = Some e" and "k * 2 + 1 < length body"
  shows "handleItem indexName body indexReply (k, [(operation, r)]) =
           ((if item_status r = Some 429 then
               [Warn_retrying (index_id (body ! (k * 2))) indexName,
                Client_index indexName (index_id (body ! (k * 2))) (Some (body ! (k * 2 + 1)))]
               @ (case indexReply k operation of
                    None \<Rightarrow> []
                  | Some err \<Rightarrow> [Error_retrying (index_id (body ! (k * 2))) indexName err])
             else [])
            @ [Error_bulkIndex (case item_status r of Some st \<Rightarrow> st | None \<Rightarrow> 0) (Some e)
                 (Some (body ! (k * 2 + 1)))],
            None)"
  using assms by (simp add: handleItem_def handleOperation_def at_def)

text \<open>
  C6. In a response that reports errors and has no more items than the body has
  actions, let item \<open>k\<close> hold the failed result of one operation, with status 429.
  Then the function handles the items before \<open>k\<close>, warns, makes one
  \<^verbatim>\<open>client.index\<close> call with the id of line \<open>k * 2\<close> and the document of line
  \<open>k * 2 + 1\<close>, logs the error of that call if it rejects, logs the item, and goes on
  with the items after \<open>k\<close>; it returns without an exception.
\<close>

theorem logBulkErrorsAndRetry_retries_429:
  assumes "errors resp" and "k < length (items resp)"
    and "items resp ! k = [(operation, r)]" and "operation \<noteq> []"
    and "item_status r = Some 429" and "item_error r = Some e"
    and "2 * length (items resp) \<le> length body"
  shows "logBulkErrorsAndRetry indexName resp body indexReply =
           (concat (map (\<lambda>x. fst (handleItem indexName body indexReply x))
                      (take k (enumerate 0 (items resp))))
            @ [Warn_retrying (index_id (body ! (k * 2))) indexName,
               Client_index indexName (index_id (body ! (k * 2))) (Some (body ! (k * 2 + 1)))]
            @ (case indexReply k operation of
                 None \<Rightarrow> []
               | Some err \<Rightarrow> [Error_retrying (index_id (body ! (k * 2))) indexName err])
            @ [Error_bulkIndex 429 (Some e) (Some (body ! (k * 2 + 1)))]
            @ concat (map (\<lambda>x. fst (handleItem indexName body indexReply x))
                        (drop (Suc k) (enumerate 0 (items resp)))),
            None)"
proof -
  from assms(2,7) have r: "k * 2 + 1 < length body" by simp
  have blk: "fst (handleItem indexName body indexReply (k, items resp ! k)) =
           [Warn_retrying (index_id (body ! (k * 2))) indexName,
            Client_index indexName (index_id (body ! (k * 2))) (Some (body ! (k * 2 + 1)))]
            @ (case indexReply k operation of
                 None \<Rightarrow> []
               | Some err \<Rightarrow> [Error_retrying (index_id (body ! (k * 2))) indexName err])
            @ [Error_bulkIndex 429 (Some e) (Some (body ! (k * 2 + 1)))]"
    using handleItem_single [OF assms(4) assms(6) r, of indexName indexReply] assms(3,5)
    by simp
  have "map (\<lambda>x. fst (handleItem indexName body indexReply x)) (enumerate 0 (items resp)) =
          map (\<lambda>x. fst (handleItem indexName body indexReply x)) (take k (enumerate 0 (items resp)))
          @ fst (handleItem indexName body indexReply (k, items resp ! k))
          # map (\<lambda>x. fst (handleItem indexName body indexReply x)) (drop (Suc k) (enumerate 0 (items resp)))"
    by (subst enumerate_split [OF assms(2)]) simp
  then show ?thesis
    by (simp add: logBulkErrorsAndRetry_blocks [OF assms(1) assms(7)] blk)
qed

lemma tooManyRequests_run:
  "logBulkErrorsAndRetry ''sirene-1.0.0-300'' tooManyRequests (flat threeActions)
     (\<lambda>k operation. Some ''timeout'') =
   ([Warn_retrying (Some (JString ''102'')) ''sirene-1.0.0-300'',
     Client_index ''sirene-1.0.0-300'' (Some (JString ''102'')) (Some (Source ''doc102'')),
     Error_retrying (Some (JString ''102'')) ''sirene-1.0.0-300'' ''timeout'',
     Error_bulkIndex 429 (Some ''es_rejected_execution_exception'') (Some (Source ''doc102'')),
     Error_bulkIndex 400 (Some ''mapper_parsing_exception'') (Some (Source ''doc103''))],
    None)"
  by code_simp

lemma tooManyRequests_facts:
  "errors tooManyRequests" "1 < length (items tooManyRequests)"
  "items tooManyRequests ! 1 =
     [(''index'', \<lparr>item_status = Some 429, item_error = Some ''es_rejected_execution_exception''\<rparr>)]"
  "2 * length (items tooManyRequests) \<le> length (flat threeActions)"
  by (simp_all add: tooManyRequests_def threeActions_def flat_def)

theorem logBulkErrorsAndRetry_retries_429_witness:
  "errors tooManyRequests \<and> 1 < length (items tooManyRequests) \<and>
   items tooManyRequests ! 1 =
     [(''index'', \<lparr>item_status = Some 429, item_error = Some ''es_rejected_execution_exception''\<rparr>)] \<and>
   2 * length (items tooManyRequests) \<le> length (flat threeActions) \<and>
   logBulkErrorsAndRetry ''sirene-1.0.0-300'' tooManyRequests (flat threeActions)
     (\<lambda>k operation. Some ''timeout'') =
   ([Warn_retrying (Some (JString ''102'')) ''sirene-1.0.0-300'',
     Client_index ''sirene-1.0.0-300'' (Some (JString ''102'')) (Some (Source ''doc102'')),
     Error_retrying (Some (JString ''102'')) ''sirene-1.0.0-300'' ''timeout'',
     Error_bulkIndex 429 (Some ''es_rejected_execution_exception'') (Some (Source ''doc102'')),
     Error_bulkIndex 400 (Some ''mapper_parsing_exception'') (Some (Source ''doc103''))],
    None)"
proof -
  have "logBulkErrorsAndRetry ''sirene-1.0.0-300'' tooManyRequests (flat threeActions)
          (\<lambda>k operation. Some ''timeout'') =
        (concat (map (\<lambda>x. fst (handleItem ''sirene-1.0.0-300'' (flat threeActions)
                               (\<lambda>k operation. Some ''timeout'') x))
                   (take 1 (enumerate 0 (items tooManyRequests))))
         @ [Warn_retrying (index_id (flat threeActions ! (1 * 2))) ''sirene-1.0.0-300'',
            Client_index ''sirene-1.0.0-300'' (index_id (flat threeActions ! (1 * 2)))
              (Some (flat threeActions ! (1 * 2 + 1)))]
         @ (case Some ''timeout'' of
              None \<Rightarrow> []
            | Some err \<Rightarrow>
                [Error_retrying (index_id (flat threeActions ! (1 * 2))) ''sirene-1.0.0-300'' err])
         @ [Error_bulkIndex 429 (Some ''es_rejected_execution_exception'')
              (Some (flat threeActions ! (1 * 2 + 1)))]
         @ concat (map (\<lambda>x. fst (handleItem ''sirene-1.0.0-300'' (flat threeActions)
                                 (\<lambda>k operation. Some ''timeout'') x))
                     (drop (Suc 1) (enumerate 0 (items tooManyRequests)))),
         None)"
    by (rule logBulkErrorsAndRetry_retries_429 [OF tooManyRequests_facts(1-3) _ _ _ tooManyRequests_facts(4)])
      simp_all
  then show ?thesis
    using tooManyRequests_facts by (simp add: tooManyRequests_run)
qed

text \<open>
  C9. In the same setting, an item that carries an error, whatever its status, is
  logged as a bulk index error with its status, its error and the document of line
  \<open>k * 2 + 1\<close>. The log entry closes the handling of the item and does not depend
  on the status: an item with status 429 is retried first and logged as well.
\<close>

theorem logBulkErrorsAndRetry_logs_every_error:
  assumes "errors resp" and "k < length (items resp)"
    and "items resp ! k = [(operation, r)]" and "operation \<noteq> []"
    and "item_error r = Some e"
    and "2 * length (items resp) \<le> length body"
  shows "fst (handleItem indexName body indexReply (k, items resp ! k)) =
           (if item_status r = Some 429 then
              [Warn_retrying (index_id (body ! (k * 2))) indexName,
               Client_index indexName (index_id (body ! (k * 2))) (Some (body ! (k * 2 + 1)))]
              @ (case indexReply k operation of
                   None \<Rightarrow> []
                 | Some err \<Rightarrow> [Error_retrying (index_id (body ! (k * 2))) indexName err])
            else [])
           @ [Error_bulkIndex (case item_status r of Some st \<Rightarrow> st | None \<Rightarrow> 0) (Some e)
                (Some (body ! (k * 2 + 1)))] \<and>
         Error_bulkIndex (case item_status r of Some st \<Rightarrow> st | None \<Rightarrow> 0) (Some e)
           (Some (body ! (k * 2 + 1)))
           \<in> set (fst (logBulkErrorsAndRetry indexName resp body indexReply)) \<and>
         (item_status r = Some 429 \<longrightarrow>
            Client_index indexName (index_id (body ! (k * 2))) (Some (body ! (k * 2 + 1)))
              \<in> set (fst (logBulkErrorsAndRetry indexName resp body indexReply)))"
proof -
  from assms(2,6) have r: "k * 2 + 1 < length body" by simp
  have blk: "fst (handleItem indexName body indexReply (k, items resp ! k)) =
           (if item_status r = Some 429 then
              [Warn_retrying (index_id (body ! (k * 2))) indexName,
               Client_index indexName (index_id (body ! (k * 2))) (Some (body ! (k * 2 + 1)))]
              @ (case indexReply k operation of
                   None \<Rightarrow> []
                 | Some err \<Rightarrow> [Error_retrying (index_id (body ! (k * 2))) indexName err])
            else [])
           @ [Error_bulkIndex (case item_status r of Some st \<Rightarrow> st | None \<Rightarrow> 0) (Some e)
                (Some (body ! (k * 2 + 1)))]"
    using handleItem_single [OF assms(4) assms(5) r, of indexName indexReply] assms(3)
    by simp
  have mem: "(k, items resp ! k) \<in> set (enumerate 0 (items resp))"
    using assms(2) by (simp add: in_set_enumerate_eq)
  have sub: "set (fst (handleItem indexName body indexReply (k, items resp ! k)))
               \<subseteq> set (fst (logBulkErrorsAndRetry indexName resp body indexReply))"
    using mem by (auto simp add: logBulkErrorsAndRetry_blocks [OF assms(1) assms(6)])
  have 2: "Error_bulkIndex (case item_status r of Some st \<Rightarrow> st | None \<Rightarrow> 0) (Some e)
             (Some (body ! (k * 2 + 1)))
           \<in> set (fst (handleItem indexName body indexReply (k, items resp ! k)))"
    by (simp add: blk)
  have 3: "item_status r = Some 429 \<Longrightarrow>
             Client_index indexName (index_id (body ! (k * 2))) (Some (body ! (k * 2 + 1)))
             \<in> set (fst (handleItem indexName body indexReply (k, items resp ! k)))"
    by (simp add: blk)
  from blk 2 3 sub show ?thesis by blast
qed

theorem logBulkErrorsAndRetry_logs_every_error_witness:
  "errors tooManyRequests \<and> 1 < length (items tooManyRequests) \<and>
   item_status \<lparr>item_status = Some 429, item_error = Some ''es_rejected_execution_exception''\<rparr>
     = Some 429 \<and>
   Error_bulkIndex 429 (Some ''es_rejected_execution_exception'') (Some (Source ''doc102''))
     \<in> set (fst (logBulkErrorsAndRetry ''sirene-1.0.0-300'' tooManyRequests (flat threeActions)
                    (\<lambda>k operation. None))) \<and>
   Client_index ''sirene-1.0.0-300'' (Some (JString ''102'')) (Some (Source ''doc102''))
     \<in> set (fst (logBulkErrorsAndRetry ''sirene-1.0.0-300'' tooManyRequests (flat threeActions)
                    (\<lambda>k operation. None)))"
proof -
  have b: "flat threeActions ! 2 =
             Header (Container ''index''
               \<lparr>es_id = Some (JString ''102''), es_index = ''sirene-1.0.0-300'', es_type = ''_doc''\<rparr>)"
    "flat threeActions ! 3 = Source ''doc102''"
    by (simp_all add: threeActions_def flat_def)
  from logBulkErrorsAndRetry_logs_every_error
         [OF tooManyRequests_facts(1-3) _ _ tooManyRequests_facts(4),
          of "''es_rejected_execution_exception''" "''sirene-1.0.0-300''" "\<lambda>k operation. None"]
  show ?thesis
    using tooManyRequests_facts(1,2) by (simp add: b)
qed

subsection \<open>bulkIndexByChunks\<close>

lemma slice_chunk:
  assumes "0 \<le> i" and "0 < C"
  shows "slice body i (i + C) = take (nat C) (drop (nat i) body)"
proof -
  have n: "nat (i + C) = nat i + nat C"
    using assms by (simp add: nat_add_distrib)
  have r: "relativeIndex (length body) i = min (nat i) (length body)"
    "relativeIndex (length body) (i + C) = min (nat i + nat C) (length body)"
    using assms by (simp_all add: relativeIndex_def n)
  show ?thesis
  proof (cases "nat i < length body")
    case True
    have "min (nat i + nat C) (length body) - nat i = min (nat C) (length body - nat i)"
      using True by arith
    with True have "slice body i (i + C) = take (min (nat C) (length (drop (nat i) body))) (drop (nat i) body)"
      unfolding slice_def Let_def r by (simp add: min_absorb1)
    also have "\<dots> = take (nat C) (drop (nat i) body)"
      by (simp only: min_def split: if_splits) simp
    finally show ?thesis .
  next
    case False
    then show ?thesis
      unfolding slice_def Let_def r by simp
  qed
qed

lemma chunked_Nil: "chunked c [] = []"
  by (simp add: chunked.simps)

lemma chunked_step:
  "0 < c \<Longrightarrow> xs \<noteq> [] \<Longrightarrow> chunked c xs = take c xs # chunked c (drop c xs)"
  by (subst chunked.simps) simp

lemma concat_chunked: "0 < c \<Longrightarrow> concat (chunked c xs) = xs"
proof (induction c xs rule: chunked.induct)
  case (1 c xs)
  show ?case
  proof (cases "xs = []")
    case True
    then show ?thesis by (simp add: chunked_Nil)
  next
    case False
    with 1 show ?thesis by (simp add: chunked_step)
  qed
qed

lemma chunked_bounds:
  "0 < c \<Longrightarrow> s \<in> set (chunked c xs) \<Longrightarrow> s \<noteq> [] \<and> length s \<le> c"
proof (induction c xs rule: chunked.induct)
  case (1 c xs)
  show ?case
  proof (cases "xs = []")
    case True
    with 1(3) show ?thesis by (simp add: chunked_Nil)
  next
    case False
    with 1 show ?thesis by (auto simp add: chunked_step)
  qed
qed


lemma ceil_div_step:
  fixes c n :: nat
  assumes "0 < c" and "c \<le> n"
  shows "(n + c - 1) div c = Suc ((n - c + c - 1) div c)"
proof -
  obtain m where n: "n = m + c"
    using assms(2) by (metis le_add_diff_inverse2)
  have "n + c - 1 = (m + c - 1) + c"
    using assms(1) n by simp
  then have "(n + c - 1) div c = (m + c - 1) div c + 1"
    using assms(1) by (simp only: div_add_self2) 
  with n show ?thesis by simp
qed

lemma ceil_div_small:
  fixes c n :: nat
  assumes "0 < n" and "n < c"
  shows "(n + c - 1) div c = 1"
  using assms by (intro div_nat_eqI) simp_all

lemma length_chunked: "0 < c \<Longrightarrow> length (chunked c xs) = (length xs + c - 1) div c"
proof (induction c xs rule: chunked.induct)
  case (1 c xs)
  show ?case
  proof (cases "xs = []")
    case True
    with 1(2) show ?thesis by (simp add: chunked_Nil)
  next
    case False
    then have pos: "0 < length xs" by simp
    from 1 False have ih: "length (chunked c (drop c xs)) = (length xs - c + c - 1) div c"
      by simp
    show ?thesis
    proof (cases "c \<le> length xs")
      case True
      from ceil_div_step [OF 1(2) True] ih False 1(2) show ?thesis
        by (simp add: chunked_step)
    next
      case False
      then have "drop c xs = []" by simp
      with ceil_div_small [OF pos] False \<open>xs \<noteq> []\<close> 1(2) show ?thesis
        by (simp add: chunked_step chunked_Nil)
    qed
  qed
qed


lemma race_in_set: "race now ps = Some w \<Longrightarrow> w \<in> set ps"
proof (cases "filter (\<lambda>p. rq_settled p \<le> now) ps")
  case Nil
  assume "race now ps = Some w"
  with Nil have "ps \<noteq> []" "w = arg_min_list rq_settled ps"
    by (auto simp add: race_def split: if_splits)
  then show ?thesis by (simp add: arg_min_list_in)
next
  case (Cons p qs)
  assume "race now ps = Some w"
  with Cons have "w = p" by (simp add: race_def)
  moreover have "p \<in> set (filter (\<lambda>p. rq_settled p \<le> now) ps)"
    by (simp add: Cons)
  ultimately show ?thesis by simp
qed

lemma race_nonempty: "ps \<noteq> [] \<Longrightarrow> \<exists>w. race now ps = Some w"
  by (simp add: race_def split: list.splits)

lemma chunkLoop_done:
  "\<not> i < int (length body) \<Longrightarrow> chunkLoop C M tm body i st = Some (Returned, st)"
  by (subst chunkLoop.simps) simp

lemma chunkLoop_concurrent_step:
  assumes "i < int (length body)" and "0 \<le> i" and "0 < C" and "1 < M"
  shows "chunkLoop C M tm body i st =
     (if M \<le> numberOfChunkRequests st + 1 then
        (case race (clock st)
                (promises st @
                 [\<lparr>rq_slice = take (nat C) (drop (nat i) body), rq_started = clock st,
                   rq_settled = clock st + fst (tm (length (calls st))),
                   rq_rejects = snd (tm (length (calls st)))\<rparr>]) of
           None \<Rightarrow> None
         | Some w \<Rightarrow>
             (if rq_rejects w then
                Some (Threw,
                      \<lparr>clock = max (clock st) (rq_settled w),
                       calls = calls st @
                         [\<lparr>rq_slice = take (nat C) (drop (nat i) body), rq_started = clock st,
                           rq_settled = clock st + fst (tm (length (calls st))),
                           rq_rejects = snd (tm (length (calls st)))\<rparr>],
                       promises = promises st @
                         [\<lparr>rq_slice = take (nat C) (drop (nat i) body), rq_started = clock st,
                           rq_settled = clock st + fst (tm (length (calls st))),
                           rq_rejects = snd (tm (length (calls st)))\<rparr>],
                       numberOfChunkRequests = numberOfChunkRequests st + 1\<rparr>)
              else
                chunkLoop C M tm body (i + C)
                  \<lparr>clock = max (clock st) (rq_settled w),
                   calls = calls st @
                     [\<lparr>rq_slice = take (nat C) (drop (nat i) body), rq_started = clock st,
                       rq_settled = clock st + fst (tm (length (calls st))),
                       rq_rejects = snd (tm (length (calls st)))\<rparr>],
                   promises = promises st @
                     [\<lparr>rq_slice = take (nat C) (drop (nat i) body), rq_started = clock st,
                       rq_settled = clock st + fst (tm (length (calls st))),
                       rq_rejects = snd (tm (length (calls st)))\<rparr>],
                   numberOfChunkRequests = numberOfChunkRequests st\<rparr>))
      else
        chunkLoop C M tm body (i + C)
          \<lparr>clock = clock st,
           calls = calls st @
             [\<lparr>rq_slice = take (nat C) (drop (nat i) body), rq_started = clock st,
               rq_settled = clock st + fst (tm (length (calls st))),
               rq_rejects = snd (tm (length (calls st)))\<rparr>],
           promises = promises st @
             [\<lparr>rq_slice = take (nat C) (drop (nat i) body), rq_started = clock st,
               rq_settled = clock st + fst (tm (length (calls st))),
               rq_rejects = snd (tm (length (calls st)))\<rparr>],
           numberOfChunkRequests = numberOfChunkRequests st + 1\<rparr>)"
  using assms
  by (subst chunkLoop.simps)
    (cases st, simp add: Let_def callRequest_def await_def slice_chunk split: option.splits)

lemma chunkLoop_sequential_step:
  assumes "i < int (length body)" and "0 \<le> i" and "0 < C" and "\<not> 1 < M"
  shows "chunkLoop C M tm body i st =
     (if snd (tm (Suc (length (calls st)))) then
        Some (Threw,
              \<lparr>clock = max (clock st) (clock st + fst (tm (Suc (length (calls st))))),
               calls = calls st @
                 [\<lparr>rq_slice = take (nat C) (drop (nat i) body), rq_started = clock st,
                   rq_settled = clock st + fst (tm (length (calls st))),
                   rq_rejects = snd (tm (length (calls st)))\<rparr>,
                  \<lparr>rq_slice = take (nat C) (drop (nat i) body), rq_started = clock st,
                   rq_settled = clock st + fst (tm (Suc (length (calls st)))),
                   rq_rejects = snd (tm (Suc (length (calls st))))\<rparr>],
               promises = promises st,
               numberOfChunkRequests = numberOfChunkRequests st\<rparr>)
      else
        chunkLoop C M tm body (i + C)
          \<lparr>clock = max (clock st) (clock st + fst (tm (Suc (length (calls st))))),
           calls = calls st @
             [\<lparr>rq_slice = take (nat C) (drop (nat i) body), rq_started = clock st,
               rq_settled = clock st + fst (tm (length (calls st))),
               rq_rejects = snd (tm (length (calls st)))\<rparr>,
              \<lparr>rq_slice = take (nat C) (drop (nat i) body), rq_started = clock st,
               rq_settled = clock st + fst (tm (Suc (length (calls st)))),
               rq_rejects = snd (tm (Suc (length (calls st))))\<rparr>],
           promises = promises st,
           numberOfChunkRequests = numberOfChunkRequests st\<rparr>)"
  using assms
  by (subst chunkLoop.simps)
    (cases st, simp add: Let_def callRequest_def await_def slice_chunk)


lemma chunked_drop_step:
  assumes "0 \<le> i" and "0 < C" and "i < int (length body)"
  shows "chunked (nat C) (drop (nat i) body) =
           take (nat C) (drop (nat i) body) # chunked (nat C) (drop (nat (i + C)) body)"
proof -
  have "drop (nat i) body \<noteq> []" using assms by simp
  moreover have "drop (nat C) (drop (nat i) body) = drop (nat (i + C)) body"
    using assms by (simp add: nat_add_distrib add.commute)
  ultimately show ?thesis
    using assms(2) by (simp add: chunked_step)
qed

lemma chunkLoop_concurrent:
  assumes C: "0 < C" and M: "1 < M" and tm: "\<forall>k. \<not> snd (tm k)"
  shows "0 \<le> i \<Longrightarrow> \<forall>p\<in>set (promises st). \<not> rq_rejects p \<Longrightarrow>
         \<exists>st'. chunkLoop C M tm body i st = Some (Returned, st') \<and>
               submitted st' = submitted st @ chunked (nat C) (drop (nat i) body) \<and>
               (\<forall>p\<in>set (promises st'). \<not> rq_rejects p)"
proof (induction "length body - nat i" arbitrary: i st rule: less_induct)
  case less
  show ?case
  proof (cases "i < int (length body)")
    case False
    then have "drop (nat i) body = []" by simp
    with False less.prems show ?thesis
      by (simp add: chunkLoop_done chunked_Nil)
  next
    case True
    define p where "p = \<lparr>rq_slice = take (nat C) (drop (nat i) body), rq_started = clock st,
                         rq_settled = clock st + fst (tm (length (calls st))),
                         rq_rejects = snd (tm (length (calls st)))\<rparr>"
    have pr: "\<forall>q\<in>set (promises st @ [p]). \<not> rq_rejects q"
      using less.prems(2) tm by (simp add: p_def)
    have dec: "length body - nat (i + C) < length body - nat i"
      using True C less.prems(1) by simp
    have nonneg: "0 \<le> i + C" using C less.prems(1) by simp
    have next_state: "\<exists>st'. chunkLoop C M tm body (i + C) s = Some (Returned, st') \<and>
               submitted st' = submitted st @ chunked (nat C) (drop (nat i) body) \<and>
               (\<forall>p\<in>set (promises st'). \<not> rq_rejects p)"
      if "calls s = calls st @ [p]" and "promises s = promises st @ [p]" for s
    proof -
      from pr that(2) have "\<forall>q\<in>set (promises s). \<not> rq_rejects q" by simp
      from less.hyps [OF dec nonneg this]
      obtain st' where "chunkLoop C M tm body (i + C) s = Some (Returned, st')"
        "submitted st' = submitted s @ chunked (nat C) (drop (nat (i + C)) body)"
        "\<forall>p\<in>set (promises st'). \<not> rq_rejects p"
        by blast
      moreover have "submitted s = submitted st @ [take (nat C) (drop (nat i) body)]"
        by (simp add: submitted_def that(1) p_def)
      ultimately show ?thesis
        using chunked_drop_step [OF less.prems(1) C True] by simp
    qed
    show ?thesis
    proof (cases "M \<le> numberOfChunkRequests st + 1")
      case False
      with next_state show ?thesis
        by (simp add: chunkLoop_concurrent_step [OF True less.prems(1) C M] p_def)
    next
      case full: True
      from race_nonempty [of "promises st @ [p]" "clock st"]
      obtain w where w: "race (clock st) (promises st @ [p]) = Some w" by auto
      from race_in_set [OF w] pr have "\<not> rq_rejects w" by blast
      with full w next_state show ?thesis
        by (simp add: chunkLoop_concurrent_step [OF True less.prems(1) C M] p_def)
    qed
  qed
qed

lemma chunkLoop_sequential:
  assumes C: "0 < C" and M: "\<not> 1 < M" and tm: "\<forall>k. \<not> snd (tm k)"
  shows "0 \<le> i \<Longrightarrow>
         \<exists>st'. chunkLoop C M tm body i st = Some (Returned, st') \<and>
               submitted st' =
                 submitted st @ concat (map (\<lambda>s. [s, s]) (chunked (nat C) (drop (nat i) body))) \<and>
               promises st' = promises st"
proof (induction "length body - nat i" arbitrary: i st rule: less_induct)
  case less
  show ?case
  proof (cases "i < int (length body)")
    case False
    then have "drop (nat i) body = []" by simp
    with False show ?thesis
      by (simp add: chunkLoop_done chunked_Nil)
  next
    case True
    have dec: "length body - nat (i + C) < length body - nat i"
      using True C less.prems(1) by simp
    have nonneg: "0 \<le> i + C" using C less.prems(1) by simp
    let ?s = "\<lparr>clock = max (clock st) (clock st + fst (tm (Suc (length (calls st))))),
           calls = calls st @
             [\<lparr>rq_slice = take (nat C) (drop (nat i) body), rq_started = clock st,
               rq_settled = clock st + fst (tm (length (calls st))),
               rq_rejects = snd (tm (length (calls st)))\<rparr>,
              \<lparr>rq_slice = take (nat C) (drop (nat i) body), rq_started = clock st,
               rq_settled = clock st + fst (tm (Suc (length (calls st)))),
               rq_rejects = snd (tm (Suc (length (calls st))))\<rparr>],
           promises = promises st,
           numberOfChunkRequests = numberOfChunkRequests st\<rparr>"
    from less.hyps [OF dec nonneg, of ?s]
    obtain st' where st': "chunkLoop C M tm body (i + C) ?s = Some (Returned, st')"
        "submitted st' =
           submitted ?s @ concat (map (\<lambda>s. [s, s]) (chunked (nat C) (drop (nat (i + C)) body)))"
        "promises st' = promises ?s"
      by blast
    have "submitted ?s =
            submitted st @ [take (nat C) (drop (nat i) body), take (nat C) (drop (nat i) body)]"
      by (simp add: submitted_def)
    with st' tm show ?thesis
      using chunked_drop_step [OF less.prems(1) C True]
      by (simp add: chunkLoop_sequential_step [OF True less.prems(1) C M])
  qed
qed


text \<open>
  With a positive chunk size, a cap above 1 and no rejected request, the dispatcher
  returns, and the non-empty slices it hands to \<^verbatim>\<open>request\<close> are the chunks of the
  body, in order, each handed over once. With a cap of 1 or less it returns as well,
  and hands every chunk over twice.
\<close>

lemma awaitAll_fulfilled:
  "\<forall>p\<in>set ps. \<not> rq_rejects p \<Longrightarrow>
     awaitAll ps st = (Returned, st\<lparr>clock := fold max (map rq_settled ps) (clock st)\<rparr>)"
proof -
  assume "\<forall>p\<in>set ps. \<not> rq_rejects p"
  then have "filter rq_rejects ps = []"
    by (simp add: filter_empty_conv)
  then show ?thesis by (simp add: awaitAll_def)
qed

lemma chunked_short:
  "length xs < c \<Longrightarrow> chunked c xs = filter (\<lambda>s. s \<noteq> []) [xs]"
  by (cases "xs = []") (simp_all add: chunked_Nil chunked_step)

lemma chunked_nonempty:
  "0 < c \<Longrightarrow> filter (\<lambda>s. s \<noteq> []) (chunked c xs) = chunked c xs"
  using chunked_bounds [of c _ xs] by (simp add: filter_id_conv)

lemma bulkIndexByChunks_concurrent:
  assumes C: "0 < CHUNK_SIZE env" and M: "1 < maxConcurrentRequests env"
    and tm: "\<forall>k. \<not> snd (tm k)"
  shows "\<exists>st. bulkIndexByChunks env tm body = Some (Returned, st) \<and>
              filter (\<lambda>s. s \<noteq> []) (submitted st) = chunked (nat (CHUNK_SIZE env)) body"
proof (cases "CHUNK_SIZE env > int (length body)")
  case True
  then have "length body < nat (CHUNK_SIZE env)" by simp
  from chunked_short [OF this] True tm show ?thesis
    by (simp add: bulkIndexByChunks_def callRequest_def await_def initial_def submitted_def Let_def)
next
  case False
  have "\<forall>p\<in>set (promises (initial :: 'a dispatch)). \<not> rq_rejects p"
    by (simp add: initial_def)
  from chunkLoop_concurrent [OF C M tm _ this, where i = 0 and body = body]
  obtain st' where st': "chunkLoop (CHUNK_SIZE env) (maxConcurrentRequests env) tm body 0 initial
                           = Some (Returned, st')"
    "submitted st' = chunked (nat (CHUNK_SIZE env)) body"
    "\<forall>p\<in>set (promises st'). \<not> rq_rejects p"
    by (auto simp add: submitted_def initial_def)
  have nonempty: "filter (\<lambda>s. s \<noteq> []) (chunked (nat (CHUNK_SIZE env)) body)
                    = chunked (nat (CHUNK_SIZE env)) body"
    using C by (simp add: chunked_nonempty)
  show ?thesis
  proof (cases "promises st' = []")
    case True
    with False st' nonempty show ?thesis
      by (simp add: bulkIndexByChunks_def)
  next
    case nonnil: False
    with False st' nonempty show ?thesis
      by (simp add: bulkIndexByChunks_def awaitAll_fulfilled submitted_def)
  qed
qed

lemma bulkIndexByChunks_sequential:
  assumes C: "0 < CHUNK_SIZE env" and M: "\<not> 1 < maxConcurrentRequests env"
    and tm: "\<forall>k. \<not> snd (tm k)" and N: "CHUNK_SIZE env \<le> int (length body)"
  shows "\<exists>st. bulkIndexByChunks env tm body = Some (Returned, st) \<and>
              submitted st =
                concat (map (\<lambda>s. [s, s]) (chunked (nat (CHUNK_SIZE env)) body))"
proof -
  from chunkLoop_sequential [OF C M tm, where i = 0 and body = body and st = initial]
  obtain st' where st': "chunkLoop (CHUNK_SIZE env) (maxConcurrentRequests env) tm body 0 initial
                           = Some (Returned, st')"
    "submitted st' = concat (map (\<lambda>s. [s, s]) (chunked (nat (CHUNK_SIZE env)) body))"
    "promises st' = []"
    by (auto simp add: submitted_def initial_def)
  with N show ?thesis
    by (simp add: bulkIndexByChunks_def)
qed

text \<open>
  C1. The claim: \<open>\<lceil>N / C\<rceil>\<close> calls, each chunk submitted once, also when the cap is
  1. With a chunk size of 2 and the cap left unconfigured, which makes it 1, a body of
  two actions is one chunk, and the code calls \<^verbatim>\<open>request\<close> for it twice: once before
  it tests the cap, and once more in the sequential branch.
\<close>

theorem bulkIndexByChunks_submits_twice:
  "maxConcurrentRequests chunksOfTwo = 1 \<and> CHUNK_SIZE chunksOfTwo = 2 \<and>
   map_option (\<lambda>(out, st). (out, submitted st))
     (bulkIndexByChunks chunksOfTwo steady [''doc1'', ''doc2'']) =
   Some (Returned, [[''doc1'', ''doc2''], [''doc1'', ''doc2'']])"
  by code_simp

text \<open>
  C2. The claim: never more than the cap in flight. With chunks of one action and a cap
  of 2, let the first request settle after one tick and the others after a hundred.
  The second call fills the window and the dispatcher waits for the first request. From
  then on \<^verbatim>\<open>Promise.race\<close> finds that settled promise in its list and returns at once,
  so the third and the fourth call are started at tick 1 while the second is still in
  flight: three calls in flight under a cap of 2. In the sequential branch the two
  calls made for one chunk are in flight together under a cap of 1.
\<close>

theorem bulkIndexByChunks_exceeds_cap:
  "maxConcurrentRequests chunksOfOneCapTwo = 2 \<and>
   map_option (\<lambda>(out, st). (out, submitted st, outstanding (calls st) 1))
     (bulkIndexByChunks chunksOfOneCapTwo firstIsFast [''doc1'', ''doc2'', ''doc3'', ''doc4'']) =
   Some (Returned, [[''doc1''], [''doc2''], [''doc3''], [''doc4'']], 3) \<and>
   map_option (\<lambda>(out, st). (out, outstanding (calls st) 0))
     (bulkIndexByChunks chunksOfTwo steady [''doc1'', ''doc2'']) =
   Some (Returned, 2)"
  by code_simp

end
